theory Spec2Isabelle
  imports Main
begin

unbundle bit_operations_syntax

section \<open>The class-file decoder of jvmparser.py\<close>

text \<open>
  A shallow embedding of \<^verbatim>\<open>jvmparser.py\<close>. A Python \<^verbatim>\<open>bytes\<close> value is a list of
  \<^typ>\<open>char\<close> (a HOL character is one byte), so \<^verbatim>\<open>b'Code'\<close> is the literal
  \<open>''Code''\<close>. The stream \<^verbatim>\<open>f\<close> is the list of bytes not yet read; a function that reads
  from it returns the value together with the bytes that remain. Every exception the
  source can raise is a value of \<open>error\<close>, returned as \<open>Inl\<close>.
\<close>

subsection \<open>Errors\<close>

text \<open>
  The Python exceptions behind an index failure: a failed \<^verbatim>\<open>assert\<close>, a list index out
  of range, a dictionary key that the entry does not have, and \<^verbatim>\<open>.decode\<close> called on a
  number.
\<close>

datatype index_failure = AssertionError | IndexError | KeyError | AttributeError

text \<open>
  The exceptions of the source under the names of the error taxonomy:
  \<^item> \<open>TruncatedInput\<close>: raised by the primitive reader (module \<^verbatim>\<open>utils\<close>);
  \<^item> \<open>InvalidMagic\<close>: \<^verbatim>\<open>RuntimeError("Not a Java file: invalid magic number")\<close>;
  \<^item> \<open>UnsupportedConstantTag t\<close>: \<^verbatim>\<open>NotImplementedError\<close> with the tag byte \<open>t\<close> in its message;
  \<^item> \<open>UnsupportedAttribute\<close>: the \<^verbatim>\<open>ValueError\<close> of \<^verbatim>\<open>AttributeInfoName(attr_name)\<close>;
  \<^item> \<open>UnsupportedFeature s\<close>: \<^verbatim>\<open>NotImplementedError("We don't support s")\<close>;
  \<^item> \<open>BadIndex\<close>: the index failures above;
  \<^item> \<open>NotFound\<close>: \<^verbatim>\<open>RuntimeError("Bootstrap method not found")\<close>;
  \<^item> \<open>UnicodeDecodeError\<close>: \<^verbatim>\<open>.decode('utf-8')\<close> on bytes that are not UTF-8.
\<close>

datatype error =
    TruncatedInput
  | InvalidMagic
  | UnsupportedConstantTag nat
  | UnsupportedAttribute
  | UnsupportedFeature string
  | BadIndex index_failure
  | NotFound
  | UnicodeDecodeError

text \<open>Sequencing of two steps: the first exception raised ends the computation.\<close>

definition and_then :: "'e + 'a \<Rightarrow> ('a \<Rightarrow> 'e + 'b) \<Rightarrow> 'e + 'b" where
  "and_then m k = (case m of Inl e \<Rightarrow> Inl e | Inr x \<Rightarrow> k x)"


subsection \<open>Flag decoder\<close>

text \<open>
  \<^verbatim>\<open>return [name for (name, mask) in flags if (value & mask) != 0]\<close>
\<close>

fun parse_flags :: "nat \<Rightarrow> (string \<times> nat) list \<Rightarrow> string list" where
  "parse_flags v [] = []"
| "parse_flags v ((name, msk) # flags) =
     (if v AND msk \<noteq> 0 then name # parse_flags v flags else parse_flags v flags)"

subsection \<open>Python values and list indexing\<close>

type_synonym bytes = "char list"

text \<open>
  What the key \<^verbatim>\<open>'bytes'\<close> of a pool entry can hold: the raw bytes of a Utf8 entry, the
  integer of an Integer entry, or the float of a Float entry (kept as its 32-bit pattern).
\<close>

datatype pyval = Bytes bytes | IntVal nat | FloatVal nat

text \<open>
  \<^verbatim>\<open>xs[i]\<close> on a Python list: an index from \<open>-len(xs)\<close> to \<open>-1\<close> counts from the end,
  an index outside \<open>-len(xs) .. len(xs) - 1\<close> raises \<^verbatim>\<open>IndexError\<close>.
\<close>

definition list_index :: "'a list \<Rightarrow> int \<Rightarrow> error + 'a" where
  "list_index xs i =
     (if 0 \<le> i \<and> i < int (length xs) then Inr (xs ! nat i)
      else if i < 0 \<and> - int (length xs) \<le> i then Inr (xs ! nat (int (length xs) + i))
      else Inl (BadIndex IndexError))"

subsection \<open>Primitive reader\<close>

text \<open>
  \<^verbatim>\<open>f.read(n)\<close> of a Python binary stream: the next \<open>n\<close> bytes, or all the bytes that
  remain when they are fewer than \<open>n\<close>; it never raises at the end of the stream.
\<close>

definition read :: "bytes \<Rightarrow> nat \<Rightarrow> bytes \<times> bytes" where
  "read f n = (take n f, drop n f)"

text \<open>The unsigned big-endian value of a byte sequence.\<close>

definition be_value :: "bytes \<Rightarrow> nat" where
  "be_value bs = foldl (\<lambda>acc c. acc * 256 + of_char c) 0 bs"

text \<open>
  Modelled from the spec: the module \<^verbatim>\<open>utils\<close> (\<^verbatim>\<open>parse_i1\<close>, \<^verbatim>\<open>parse_i2\<close>,
  \<^verbatim>\<open>parse_i4\<close>, \<^verbatim>\<open>parse_f4\<close>) is not part of the sources. The primitive reader extracts
  unsigned 8/16/32-bit big-endian integers and a 32-bit float, advances the cursor by the
  exact width consumed, and fails with \<open>TruncatedInput\<close> when fewer bytes remain than
  requested. \<open>parse_fixed w\<close> is the reader of a field of \<open>w\<close> bytes.
\<close>

definition parse_fixed :: "nat \<Rightarrow> bytes \<Rightarrow> error + nat \<times> bytes" where
  "parse_fixed w f =
     (if length f < w then Inl TruncatedInput else Inr (be_value (take w f), drop w f))"

definition parse_i1 :: "bytes \<Rightarrow> error + nat \<times> bytes" where
  "parse_i1 f = parse_fixed 1 f"

definition parse_i2 :: "bytes \<Rightarrow> error + nat \<times> bytes" where
  "parse_i2 f = parse_fixed 2 f"

definition parse_i4 :: "bytes \<Rightarrow> error + nat \<times> bytes" where
  "parse_i4 f = parse_fixed 4 f"

text \<open>The float is represented by its 32-bit pattern.\<close>

definition parse_f4 :: "bytes \<Rightarrow> error + nat \<times> bytes" where
  "parse_f4 f = parse_fixed 4 f"

text \<open>
  \<^verbatim>\<open>for i in range(n): xs.append(body(f))\<close>: the body runs \<open>n\<close> times on the stream,
  the results are collected in order, and the first exception ends the loop.
\<close>

fun for_range :: "(bytes \<Rightarrow> error + 'a \<times> bytes) \<Rightarrow> nat \<Rightarrow> bytes \<Rightarrow> error + 'a list \<times> bytes" where
  "for_range body 0 f = Inr ([], f)"
| "for_range body (Suc n) f =
     and_then (body f) (\<lambda>(x, f).
     and_then (for_range body n f) (\<lambda>(xs, f). Inr (x # xs, f)))"

subsection \<open>The constants of jvmconsts\<close>

text \<open>
  The members of the enum \<^verbatim>\<open>Constant\<close> that the parser names, and \<open>CONSTANT_other\<close> for
  any further member of the enum, which falls to the final \<^verbatim>\<open>else\<close> of the dispatch.
\<close>

datatype constant_tag =
    CONSTANT_Methodref
  | CONSTANT_Class
  | CONSTANT_NameAndType
  | CONSTANT_Utf8
  | CONSTANT_Fieldref
  | CONSTANT_String
  | CONSTANT_InvokeDynamic
  | CONSTANT_MethodHandle
  | CONSTANT_Float
  | CONSTANT_Integer
  | CONSTANT_other

text \<open>
  The module \<^verbatim>\<open>jvmconsts\<close> is not part of the sources, so what the parser takes from it
  is a parameter: \<open>Constant t\<close> is the member of the enum with value \<open>t\<close> (\<open>None\<close> where
  \<^verbatim>\<open>Constant(t)\<close> raises \<^verbatim>\<open>ValueError\<close>), and the two flag tables.
\<close>

record jvmconsts =
  Constant :: "nat \<Rightarrow> constant_tag option"
  CLASS_ACCESS_FLAGS :: "(string \<times> nat) list"
  METHOD_ACCESS_FLAGS :: "(string \<times> nat) list"

subsection \<open>Constant pool decoder\<close>

text \<open>
  The dictionary \<^verbatim>\<open>cp_info\<close>: the key \<^verbatim>\<open>'tag'\<close> is the constructor, the other keys are
  its arguments in the order the parser reads them.
\<close>

datatype cp_info =
    CONSTANT_Methodref_info nat nat
  | CONSTANT_Class_info nat
  | CONSTANT_NameAndType_info nat nat
  | CONSTANT_Utf8_info bytes
  | CONSTANT_Fieldref_info nat nat
  | CONSTANT_String_info nat
  | CONSTANT_InvokeDynamic_info nat nat
  | CONSTANT_MethodHandle_info nat nat
  | CONSTANT_Float_info nat
  | CONSTANT_Integer_info nat

text \<open>\<^verbatim>\<open>cp_info['name_index']\<close>: only Class and NameAndType entries have the key.\<close>

fun get_name_index :: "cp_info \<Rightarrow> error + nat" where
  "get_name_index (CONSTANT_Class_info name_index) = Inr name_index"
| "get_name_index (CONSTANT_NameAndType_info name_index descriptor_index) = Inr name_index"
| "get_name_index _ = Inl (BadIndex KeyError)"

text \<open>\<^verbatim>\<open>cp_info['bytes']\<close>: only Utf8, Float and Integer entries have the key.\<close>

fun get_bytes :: "cp_info \<Rightarrow> error + pyval" where
  "get_bytes (CONSTANT_Utf8_info b) = Inr (Bytes b)"
| "get_bytes (CONSTANT_Float_info x) = Inr (FloatVal x)"
| "get_bytes (CONSTANT_Integer_info i) = Inr (IntVal i)"
| "get_bytes _ = Inl (BadIndex KeyError)"

text \<open>The body of the loop of \<^verbatim>\<open>parse_constant_pool\<close>: one entry.\<close>

definition parse_cp_info :: "(nat \<Rightarrow> constant_tag option) \<Rightarrow> bytes \<Rightarrow> error + cp_info \<times> bytes" where
  "parse_cp_info Const f =
     and_then (parse_i1 f) (\<lambda>(tag_byte, f).
     case Const tag_byte of
       None \<Rightarrow> Inl (UnsupportedConstantTag tag_byte)
     | Some constant_tag \<Rightarrow>
        (case constant_tag of
           CONSTANT_Methodref \<Rightarrow>
             and_then (parse_i2 f) (\<lambda>(class_index, f).
             and_then (parse_i2 f) (\<lambda>(name_and_type_index, f).
             Inr (CONSTANT_Methodref_info class_index name_and_type_index, f)))
         | CONSTANT_Class \<Rightarrow>
             and_then (parse_i2 f) (\<lambda>(name_index, f).
             Inr (CONSTANT_Class_info name_index, f))
         | CONSTANT_NameAndType \<Rightarrow>
             and_then (parse_i2 f) (\<lambda>(name_index, f).
             and_then (parse_i2 f) (\<lambda>(descriptor_index, f).
             Inr (CONSTANT_NameAndType_info name_index descriptor_index, f)))
         | CONSTANT_Utf8 \<Rightarrow>
             and_then (parse_i2 f) (\<lambda>(len, f).
             case read f len of (b, f) \<Rightarrow> Inr (CONSTANT_Utf8_info b, f))
         | CONSTANT_Fieldref \<Rightarrow>
             and_then (parse_i2 f) (\<lambda>(class_index, f).
             and_then (parse_i2 f) (\<lambda>(name_and_type_index, f).
             Inr (CONSTANT_Fieldref_info class_index name_and_type_index, f)))
         | CONSTANT_String \<Rightarrow>
             and_then (parse_i2 f) (\<lambda>(string_index, f).
             Inr (CONSTANT_String_info string_index, f))
         | CONSTANT_InvokeDynamic \<Rightarrow>
             and_then (parse_i2 f) (\<lambda>(bootstrap_method_attr_index, f).
             and_then (parse_i2 f) (\<lambda>(name_and_type_index, f).
             Inr (CONSTANT_InvokeDynamic_info bootstrap_method_attr_index name_and_type_index, f)))
         | CONSTANT_MethodHandle \<Rightarrow>
             and_then (parse_i1 f) (\<lambda>(reference_kind, f).
             and_then (parse_i2 f) (\<lambda>(reference_index, f).
             Inr (CONSTANT_MethodHandle_info reference_kind reference_index, f)))
         | CONSTANT_Float \<Rightarrow>
             and_then (parse_f4 f) (\<lambda>(x, f). Inr (CONSTANT_Float_info x, f))
         | CONSTANT_Integer \<Rightarrow>
             and_then (parse_i4 f) (\<lambda>(i, f). Inr (CONSTANT_Integer_info i, f))
         | CONSTANT_other \<Rightarrow> Inl (UnsupportedConstantTag tag_byte)))"

text \<open>
  \<^verbatim>\<open>for i in range(constant_pool_count-1)\<close>: the count is the result of \<^verbatim>\<open>parse_i2\<close>, a
  natural number; for a count of 0 the range \<^verbatim>\<open>range(-1)\<close> is empty, as \<open>0 - 1 = 0\<close> on
  natural numbers.
\<close>

definition parse_constant_pool ::
  "(nat \<Rightarrow> constant_tag option) \<Rightarrow> bytes \<Rightarrow> nat \<Rightarrow> error + cp_info list \<times> bytes" where
  "parse_constant_pool Const f constant_pool_count =
     for_range (parse_cp_info Const) (constant_pool_count - 1) f"

subsection \<open>Attributes, methods and the class\<close>

record bootstrap_method =
  bootstrap_method_ref :: nat
  num_bootstrap_arguments :: nat
  bootstrap_arguments :: "nat list"

record inner_class =
  inner_class_info_index :: nat
  outer_class_info_index :: nat
  inner_name_index :: nat
  inner_class_access_flags :: nat

record line_number_entry =
  start_pc :: nat
  line_number :: nat

text \<open>
  The dictionary under the key \<^verbatim>\<open>'info'\<close> of an attribute, one constructor for each
  sub-parser, and the attribute dictionary itself with its keys
  \<^verbatim>\<open>'attribute_name_index'\<close>, \<^verbatim>\<open>'_name'\<close> and \<^verbatim>\<open>'info'\<close>. The declared length of
  the payload is not kept.
\<close>

datatype attribute_info =
    BootstrapMethods_attribute nat "bootstrap_method list"
  | SourceFile_attribute nat
  | InnerClasses_attribute nat "inner_class list"
  | Code_attribute nat nat bytes "attribute list"
  | LineNumberTable_attribute nat "line_number_entry list"
and attribute =
    Attribute (attribute_name_index: nat) (get_name: pyval) (get_info: attribute_info)

record method_info =
  method_access_flags :: "string list"
  method_name_index :: nat
  method_descriptor_index :: nat
  method_attributes :: "attribute list"

record JVMClass =
  version :: "nat \<times> nat"
  constant_pool :: "cp_info list"
  methods :: "method_info list option"
  attributes :: "attribute list option"
  access_flags :: "string list"
  this_class :: nat
  super_class :: nat

datatype AttributeInfoName =
  BOOTSTRAP_METHOD | INNER_CLASSES | SOURCE_FILE | CODE | LINE_NUMBER_TABLE

text \<open>
  \<^verbatim>\<open>AttributeInfoName(attr_name)\<close>: the member of the enum whose value is the name;
  \<open>None\<close> where the constructor of the enum raises \<^verbatim>\<open>ValueError\<close>.
\<close>

definition AttributeInfoName :: "pyval \<Rightarrow> AttributeInfoName option" where
  "AttributeInfoName v =
     (if v = Bytes ''BootstrapMethods'' then Some BOOTSTRAP_METHOD
      else if v = Bytes ''InnerClasses'' then Some INNER_CLASSES
      else if v = Bytes ''SourceFile'' then Some SOURCE_FILE
      else if v = Bytes ''Code'' then Some CODE
      else if v = Bytes ''LineNumberTable'' then Some LINE_NUMBER_TABLE
      else None)"

subsection \<open>Cross-reference resolver\<close>

text \<open>
  \<^verbatim>\<open>assert index > 0\<close>, then \<^verbatim>\<open>clazz.constant_pool[index - 1]\<close>.
\<close>

definition from_cp :: "JVMClass \<Rightarrow> int \<Rightarrow> error + cp_info" where
  "from_cp clazz index =
     (if index > 0 then list_index (constant_pool clazz) (index - 1)
      else Inl (BadIndex AssertionError))"

text \<open>
  Whether a byte lies in a closed range, and whether a byte sequence is well-formed UTF-8
  (no overlong forms, no surrogates, nothing above U+10FFFF), which is what the strict
  decoder of Python accepts.
\<close>

definition byte_in :: "nat \<Rightarrow> nat \<Rightarrow> char \<Rightarrow> bool" where
  "byte_in lo hi c = (lo \<le> of_char c \<and> (of_char c :: nat) \<le> hi)"

fun valid_utf8 :: "bytes \<Rightarrow> bool" where
  "valid_utf8 [] = True"
| "valid_utf8 (c # cs) =
     (if byte_in 0 127 c then valid_utf8 cs
      else if byte_in 194 223 c then
        (case cs of
           c1 # r \<Rightarrow> byte_in 128 191 c1 \<and> valid_utf8 r
         | _ \<Rightarrow> False)
      else if byte_in 224 239 c then
        (case cs of
           c1 # c2 # r \<Rightarrow>
             byte_in (if byte_in 224 224 c then 160 else 128)
                     (if byte_in 237 237 c then 159 else 191) c1
             \<and> byte_in 128 191 c2 \<and> valid_utf8 r
         | _ \<Rightarrow> False)
      else if byte_in 240 244 c then
        (case cs of
           c1 # c2 # c3 # r \<Rightarrow>
             byte_in (if byte_in 240 240 c then 144 else 128)
                     (if byte_in 244 244 c then 143 else 191) c1
             \<and> byte_in 128 191 c2 \<and> byte_in 128 191 c3 \<and> valid_utf8 r
         | _ \<Rightarrow> False)
      else False)"

text \<open>
  \<^verbatim>\<open>v.decode('utf-8')\<close>: a number has no method \<^verbatim>\<open>decode\<close>; bytes that are not UTF-8
  raise \<^verbatim>\<open>UnicodeDecodeError\<close>. The text that results is represented by its UTF-8
  encoding, that is by the bytes themselves.
\<close>

definition decode_utf8 :: "pyval \<Rightarrow> error + string" where
  "decode_utf8 v =
     (case v of
        Bytes b \<Rightarrow> if valid_utf8 b then Inr b else Inl UnicodeDecodeError
      | IntVal i \<Rightarrow> Inl (BadIndex AttributeError)
      | FloatVal x \<Rightarrow> Inl (BadIndex AttributeError))"

text \<open>
  \<^verbatim>\<open>clazz.constant_pool[clazz.constant_pool[class_index - 1]['name_index'] - 1]['bytes'].decode('utf-8')\<close>
\<close>

definition get_name_of_class :: "JVMClass \<Rightarrow> int \<Rightarrow> error + string" where
  "get_name_of_class clazz class_index =
     and_then (list_index (constant_pool clazz) (class_index - 1)) (\<lambda>entry.
     and_then (get_name_index entry) (\<lambda>name_index.
     and_then (list_index (constant_pool clazz) (int name_index - 1)) (\<lambda>name_entry.
     and_then (get_bytes name_entry) decode_utf8)))"

definition get_name_of_member :: "JVMClass \<Rightarrow> int \<Rightarrow> error + string" where
  "get_name_of_member clazz name_and_type_index =
     and_then (list_index (constant_pool clazz) (name_and_type_index - 1)) (\<lambda>entry.
     and_then (get_name_index entry) (\<lambda>name_index.
     and_then (list_index (constant_pool clazz) (int name_index - 1)) (\<lambda>name_entry.
     and_then (get_bytes name_entry) decode_utf8)))"

text \<open>\<^verbatim>\<open>info['bootstrap_methods']\<close>: only the BootstrapMethods payload has the key.\<close>

fun get_bootstrap_methods :: "attribute_info \<Rightarrow> error + bootstrap_method list" where
  "get_bootstrap_methods (BootstrapMethods_attribute n ms) = Inr ms"
| "get_bootstrap_methods _ = Inl (BadIndex KeyError)"

text \<open>
  The loop of \<^verbatim>\<open>from_bsm\<close>: the first attribute whose \<^verbatim>\<open>'_name'\<close> is
  \<^verbatim>\<open>b'BootstrapMethods'\<close> decides; after the loop, \<^verbatim>\<open>RuntimeError\<close>.
\<close>

fun from_bsm_loop :: "attribute list \<Rightarrow> int \<Rightarrow> error + bootstrap_method" where
  "from_bsm_loop [] index = Inl NotFound"
| "from_bsm_loop (attr # attrs) index =
     (if get_name attr = Bytes ''BootstrapMethods''
      then and_then (get_bootstrap_methods (get_info attr)) (\<lambda>ms. list_index ms index)
      else from_bsm_loop attrs index)"

definition from_bsm :: "JVMClass \<Rightarrow> int \<Rightarrow> error + bootstrap_method" where
  "from_bsm clazz index =
     (if \<not> index \<ge> 0 then Inl (BadIndex AssertionError)
      else case attributes clazz of
             None \<Rightarrow> Inl (BadIndex AssertionError)
           | Some attrs \<Rightarrow> from_bsm_loop attrs index)"

subsection \<open>Attribute decoder\<close>

definition parse_bootstrap_method :: "bytes \<Rightarrow> error + bootstrap_method \<times> bytes" where
  "parse_bootstrap_method f =
     and_then (parse_i2 f) (\<lambda>(method_ref, f).
     and_then (parse_i2 f) (\<lambda>(num_arguments, f).
     and_then (for_range parse_i2 num_arguments f) (\<lambda>(arguments, f).
     Inr (\<lparr>bootstrap_method_ref = method_ref, num_bootstrap_arguments = num_arguments,
           bootstrap_arguments = arguments\<rparr>, f))))"

definition parse_attribute_info_BootstrapMethods :: "JVMClass \<Rightarrow> bytes \<Rightarrow> error + attribute_info" where
  "parse_attribute_info_BootstrapMethods clazz f =
     and_then (parse_i2 f) (\<lambda>(num_bootstrap_methods, f).
     and_then (for_range parse_bootstrap_method num_bootstrap_methods f) (\<lambda>(bootstrap_methods, f).
     Inr (BootstrapMethods_attribute num_bootstrap_methods bootstrap_methods)))"

definition parse_attribute_info_SourceFile :: "JVMClass \<Rightarrow> bytes \<Rightarrow> error + attribute_info" where
  "parse_attribute_info_SourceFile clazz f =
     and_then (parse_i2 f) (\<lambda>(sourcefile_index, f). Inr (SourceFile_attribute sourcefile_index))"

definition parse_inner_class :: "bytes \<Rightarrow> error + inner_class \<times> bytes" where
  "parse_inner_class f =
     and_then (parse_i2 f) (\<lambda>(inner_info, f).
     and_then (parse_i2 f) (\<lambda>(outer_info, f).
     and_then (parse_i2 f) (\<lambda>(inner_name, f).
     and_then (parse_i2 f) (\<lambda>(flags, f).
     Inr (\<lparr>inner_class_info_index = inner_info, outer_class_info_index = outer_info,
           inner_name_index = inner_name, inner_class_access_flags = flags\<rparr>, f)))))"

definition parse_attribute_info_InnerClasses :: "JVMClass \<Rightarrow> bytes \<Rightarrow> error + attribute_info" where
  "parse_attribute_info_InnerClasses clazz f =
     and_then (parse_i2 f) (\<lambda>(number_of_classes, f).
     and_then (for_range parse_inner_class number_of_classes f) (\<lambda>(classes, f).
     Inr (InnerClasses_attribute number_of_classes classes)))"

definition parse_line_number_entry :: "bytes \<Rightarrow> error + line_number_entry \<times> bytes" where
  "parse_line_number_entry f =
     and_then (parse_i2 f) (\<lambda>(pc, f).
     and_then (parse_i2 f) (\<lambda>(line, f).
     Inr (\<lparr>start_pc = pc, line_number = line\<rparr>, f)))"

definition parse_attribute_info_LineNumberTable :: "JVMClass \<Rightarrow> bytes \<Rightarrow> error + attribute_info" where
  "parse_attribute_info_LineNumberTable clazz f =
     and_then (parse_i2 f) (\<lambda>(line_number_table_length, f).
     and_then (for_range parse_line_number_entry line_number_table_length f) (\<lambda>(table, f).
     Inr (LineNumberTable_attribute line_number_table_length table)))"

lemma parse_fixed_length:
  "parse_fixed w f = Inr (v, f') \<Longrightarrow> length f = w + length f'"
  by (auto simp: parse_fixed_def split: if_splits)

lemmas parse_length =
  parse_fixed_length [of 1, folded parse_i1_def]
  parse_fixed_length [of 2, folded parse_i2_def]
  parse_fixed_length [of 4, folded parse_i4_def]

lemma and_then_cong [fundef_cong]:
  "m = m' \<Longrightarrow> (\<And>x. m' = Inr x \<Longrightarrow> k x = k' x) \<Longrightarrow> and_then m k = and_then m' k'"
  by (cases m') (simp_all add: and_then_def)

text \<open>
  \<^verbatim>\<open>parse_attributes\<close>, \<^verbatim>\<open>parse_attribute_info\<close> and \<^verbatim>\<open>parse_attribute_info_Code\<close> call
  each other. The payload \<^verbatim>\<open>info_bytes = f.read(attribute_length)\<close> becomes a stream of
  its own (\<^verbatim>\<open>io.BytesIO(info_bytes)\<close>), and the outer stream goes on after the bytes
  read. \<^verbatim>\<open>for i in range(exception_table_length): raise ...\<close> raises exactly when the
  length is not 0.
\<close>

function parse_attributes :: "JVMClass \<Rightarrow> bytes \<Rightarrow> nat \<Rightarrow> error + attribute list \<times> bytes"
  and parse_attribute_info :: "JVMClass \<Rightarrow> pyval \<Rightarrow> bytes \<Rightarrow> error + attribute_info"
  and parse_attribute_info_Code :: "JVMClass \<Rightarrow> bytes \<Rightarrow> error + attribute_info"
where
  "parse_attributes clazz f count =
     (if count = 0 then Inr ([], f)
      else
        and_then (parse_i2 f) (\<lambda>(name_index, f).
        and_then (and_then (from_cp clazz (int name_index)) get_bytes) (\<lambda>name.
        and_then (parse_i4 f) (\<lambda>(attribute_length, f).
        case read f attribute_length of (info_bytes, f) \<Rightarrow>
        and_then (parse_attribute_info clazz name info_bytes) (\<lambda>info.
        and_then (parse_attributes clazz f (count - 1)) (\<lambda>(attrs, f).
        Inr (Attribute name_index name info # attrs, f)))))))"
| "parse_attribute_info clazz attr_name f =
     (case AttributeInfoName attr_name of
        None \<Rightarrow> Inl UnsupportedAttribute
      | Some BOOTSTRAP_METHOD \<Rightarrow> parse_attribute_info_BootstrapMethods clazz f
      | Some SOURCE_FILE \<Rightarrow> parse_attribute_info_SourceFile clazz f
      | Some INNER_CLASSES \<Rightarrow> parse_attribute_info_InnerClasses clazz f
      | Some CODE \<Rightarrow> parse_attribute_info_Code clazz f
      | Some LINE_NUMBER_TABLE \<Rightarrow> parse_attribute_info_LineNumberTable clazz f)"
| "parse_attribute_info_Code clazz f =
     and_then (parse_i2 f) (\<lambda>(max_stack, f).
     and_then (parse_i2 f) (\<lambda>(max_locals, f).
     and_then (parse_i4 f) (\<lambda>(code_length, f).
     case read f code_length of (code, f) \<Rightarrow>
     and_then (parse_i2 f) (\<lambda>(exception_table_length, f).
     if exception_table_length \<noteq> 0 then Inl (UnsupportedFeature ''exception tables'')
     else
       and_then (parse_i2 f) (\<lambda>(attributes_count, f).
       and_then (parse_attributes clazz f attributes_count) (\<lambda>(attributes, f).
       Inr (Code_attribute max_stack max_locals code attributes)))))))"
  by pat_completeness auto

termination parse_attributes
  apply (relation "measure (\<lambda>x. case x of
      Inl (clazz, f, count) \<Rightarrow> 3 * length f
    | Inr (Inl (clazz, name, f)) \<Rightarrow> 3 * length f + 2
    | Inr (Inr (clazz, f)) \<Rightarrow> 3 * length f + 1)")
  apply (auto simp: read_def dest!: parse_length)
  done

subsection \<open>Class assembler\<close>

text \<open>
  \<^verbatim>\<open>for i in range(interfaces_count): raise NotImplementedError("We don't support interfaces")\<close>,
  and the same loop with the same message in \<^verbatim>\<open>parse_fields\<close>.
\<close>

definition parse_interfaces :: "bytes \<Rightarrow> nat \<Rightarrow> error + unit list \<times> bytes" where
  "parse_interfaces f interfaces_count =
     (if interfaces_count \<noteq> 0 then Inl (UnsupportedFeature ''interfaces'') else Inr ([], f))"

definition parse_fields :: "bytes \<Rightarrow> nat \<Rightarrow> error + unit list \<times> bytes" where
  "parse_fields f interfaces_count =
     (if interfaces_count \<noteq> 0 then Inl (UnsupportedFeature ''interfaces'') else Inr ([], f))"

text \<open>The body of the loop over the methods.\<close>

definition parse_method :: "jvmconsts \<Rightarrow> JVMClass \<Rightarrow> bytes \<Rightarrow> error + method_info \<times> bytes" where
  "parse_method K clazz f =
     and_then (parse_i2 f) (\<lambda>(flags, f).
     and_then (parse_i2 f) (\<lambda>(name_index, f).
     and_then (parse_i2 f) (\<lambda>(descriptor_index, f).
     and_then (parse_i2 f) (\<lambda>(attributes_count, f).
     and_then (parse_attributes clazz f attributes_count) (\<lambda>(attrs, f).
     Inr (\<lparr>method_access_flags = parse_flags flags (METHOD_ACCESS_FLAGS K),
           method_name_index = name_index, method_descriptor_index = descriptor_index,
           method_attributes = attrs\<rparr>, f))))))"

text \<open>
  \<^verbatim>\<open>parse_class_file\<close> on the contents of the file. \<^verbatim>\<open>hex(magic) != '0xcafebabe'\<close> holds
  exactly when the number read is not \<open>0xCAFEBABE\<close>.
\<close>

definition parse_class_file :: "jvmconsts \<Rightarrow> bytes \<Rightarrow> error + JVMClass" where
  "parse_class_file K f =
     and_then (parse_i4 f) (\<lambda>(magic, f).
     if magic \<noteq> 0xCAFEBABE then Inl InvalidMagic
     else
       and_then (parse_i2 f) (\<lambda>(v_minor, f).
       and_then (parse_i2 f) (\<lambda>(v_major, f).
       and_then (parse_i2 f) (\<lambda>(constant_pool_count, f).
       and_then (parse_constant_pool (Constant K) f constant_pool_count) (\<lambda>(pool, f).
       and_then (parse_i2 f) (\<lambda>(flags, f).
       and_then (parse_i2 f) (\<lambda>(this, f).
       and_then (parse_i2 f) (\<lambda>(super, f).
       and_then (parse_i2 f) (\<lambda>(interfaces_count, f).
       and_then (parse_interfaces f interfaces_count) (\<lambda>(interfaces, f).
       and_then (parse_i2 f) (\<lambda>(fields_count, f).
       and_then (parse_fields f fields_count) (\<lambda>(fields, f).
       let clazz = \<lparr>version = (v_major, v_minor), constant_pool = pool, methods = None,
                    attributes = None,
                    access_flags = parse_flags flags (CLASS_ACCESS_FLAGS K),
                    this_class = this, super_class = super\<rparr>
       in
       and_then (parse_i2 f) (\<lambda>(methods_count, f).
       and_then (for_range (parse_method K clazz) methods_count f) (\<lambda>(ms, f).
       and_then (parse_i2 f) (\<lambda>(attributes_count, f).
       and_then (parse_attributes (clazz\<lparr>methods := Some ms\<rparr>) f attributes_count) (\<lambda>(attrs, f).
       Inr (clazz\<lparr>methods := Some ms, attributes := Some attrs\<rparr>)))))))))))))))))"

subsection \<open>Well-formed pool entries\<close>

text \<open>
  The bytes of a well-formed pool entry, used to state what the pool decoder returns on
  them: the tag byte, then the fields in the order the parser reads them, each as an
  unsigned big-endian integer of 1, 2 or 4 bytes; a Utf8 entry is its 16-bit length
  followed by exactly that many bytes.
\<close>

definition u1 :: "nat \<Rightarrow> bytes" where
  "u1 n = [char_of n]"

definition u2 :: "nat \<Rightarrow> bytes" where
  "u2 n = [char_of (n div 256), char_of n]"

definition u4 :: "nat \<Rightarrow> bytes" where
  "u4 n = [char_of (n div 16777216), char_of (n div 65536), char_of (n div 256), char_of n]"

text \<open>The member of the enum that the key \<^verbatim>\<open>'tag'\<close> of an entry names.\<close>

fun tag_of :: "cp_info \<Rightarrow> constant_tag" where
  "tag_of (CONSTANT_Methodref_info c n) = CONSTANT_Methodref"
| "tag_of (CONSTANT_Class_info n) = CONSTANT_Class"
| "tag_of (CONSTANT_NameAndType_info n d) = CONSTANT_NameAndType"
| "tag_of (CONSTANT_Utf8_info b) = CONSTANT_Utf8"
| "tag_of (CONSTANT_Fieldref_info c n) = CONSTANT_Fieldref"
| "tag_of (CONSTANT_String_info s) = CONSTANT_String"
| "tag_of (CONSTANT_InvokeDynamic_info b n) = CONSTANT_InvokeDynamic"
| "tag_of (CONSTANT_MethodHandle_info k i) = CONSTANT_MethodHandle"
| "tag_of (CONSTANT_Float_info x) = CONSTANT_Float"
| "tag_of (CONSTANT_Integer_info i) = CONSTANT_Integer"

fun encode_fields :: "cp_info \<Rightarrow> bytes" where
  "encode_fields (CONSTANT_Methodref_info c n) = u2 c @ u2 n"
| "encode_fields (CONSTANT_Class_info n) = u2 n"
| "encode_fields (CONSTANT_NameAndType_info n d) = u2 n @ u2 d"
| "encode_fields (CONSTANT_Utf8_info b) = u2 (length b) @ b"
| "encode_fields (CONSTANT_Fieldref_info c n) = u2 c @ u2 n"
| "encode_fields (CONSTANT_String_info s) = u2 s"
| "encode_fields (CONSTANT_InvokeDynamic_info b n) = u2 b @ u2 n"
| "encode_fields (CONSTANT_MethodHandle_info k i) = u1 k @ u2 i"
| "encode_fields (CONSTANT_Float_info x) = u4 x"
| "encode_fields (CONSTANT_Integer_info i) = u4 i"

text \<open>Every field fits the width it is written in.\<close>

fun fields_fit :: "cp_info \<Rightarrow> bool" where
  "fields_fit (CONSTANT_Methodref_info c n) = (c < 65536 \<and> n < 65536)"
| "fields_fit (CONSTANT_Class_info n) = (n < 65536)"
| "fields_fit (CONSTANT_NameAndType_info n d) = (n < 65536 \<and> d < 65536)"
| "fields_fit (CONSTANT_Utf8_info b) = (length b < 65536)"
| "fields_fit (CONSTANT_Fieldref_info c n) = (c < 65536 \<and> n < 65536)"
| "fields_fit (CONSTANT_String_info s) = (s < 65536)"
| "fields_fit (CONSTANT_InvokeDynamic_info b n) = (b < 65536 \<and> n < 65536)"
| "fields_fit (CONSTANT_MethodHandle_info k i) = (k < 256 \<and> i < 65536)"
| "fields_fit (CONSTANT_Float_info x) = (x < 4294967296)"
| "fields_fit (CONSTANT_Integer_info i) = (i < 4294967296)"

definition encode_cp_info :: "nat \<times> cp_info \<Rightarrow> bytes" where
  "encode_cp_info te = char_of (fst te) # encode_fields (snd te)"

text \<open>
  A pair of a tag byte and an entry is well formed when the byte is the value of the
  entry's member of the enum and the fields fit.
\<close>

definition well_formed_entry :: "(nat \<Rightarrow> constant_tag option) \<Rightarrow> nat \<times> cp_info \<Rightarrow> bool" where
  "well_formed_entry Const te =
     (fst te < 256 \<and> Const (fst te) = Some (tag_of (snd te)) \<and> fields_fit (snd te))"

subsection \<open>Truncated streams\<close>

text \<open>
  How the result \<open>s\<close> of a parser on a stream relates to its result \<open>l\<close> on the same
  stream followed by further bytes \<open>ext\<close>. For a parser that returns no stream: \<open>s\<close> is
  \<open>TruncatedInput\<close> or the two results are equal.
\<close>

definition same_or_truncated :: "error + 'a \<Rightarrow> error + 'a \<Rightarrow> bool" where
  "same_or_truncated s l = (s = Inl TruncatedInput \<or> s = l)"

text \<open>
  For a parser that returns the stream: \<open>s\<close> is \<open>TruncatedInput\<close>, or both fail alike, or both
  return the same value and the longer run has exactly the bytes \<open>ext\<close> more left.
\<close>

definition in_step :: "bytes \<Rightarrow> error + 'a \<times> bytes \<Rightarrow> error + 'a \<times> bytes \<Rightarrow> bool" where
  "in_step ext s l =
     (s = Inl TruncatedInput \<or>
      (case s of Inl e \<Rightarrow> l = Inl e | Inr (v, r) \<Rightarrow> l = Inr (v, r @ ext)))"

text \<open>The same, except that nothing is said when the shorter run has used up its stream.\<close>

definition weak_step :: "bytes \<Rightarrow> error + 'a \<times> bytes \<Rightarrow> error + 'a \<times> bytes \<Rightarrow> bool" where
  "weak_step ext s l =
     (s = Inl TruncatedInput \<or>
      (case s of Inl e \<Rightarrow> l = Inl e | Inr (v, r) \<Rightarrow> r = [] \<or> l = Inr (v, r @ ext)))"

text \<open>
  The same, except that when the shorter run has used up its stream the longer run may
  have any bytes left, the value being the same.
\<close>

definition strong_step :: "bytes \<Rightarrow> error + 'a \<times> bytes \<Rightarrow> error + 'a \<times> bytes \<Rightarrow> bool" where
  "strong_step ext s l =
     (s = Inl TruncatedInput \<or>
      (case s of
         Inl e \<Rightarrow> l = Inl e
       | Inr (v, r) \<Rightarrow> (r = [] \<and> (\<exists>r'. l = Inr (v, r'))) \<or> l = Inr (v, r @ ext)))"

subsection \<open>Concrete inputs\<close>

text \<open>
  Values for the parameters, used where the decoder is evaluated on concrete bytes: the
  tag numbers of the class-file format (5, 6, 11 and 16 stand for members of the enum
  that the parser does not handle), and two short flag tables.
\<close>

definition jvm_Constant :: "nat \<Rightarrow> constant_tag option" where
  "jvm_Constant t =
     (if t = 1 then Some CONSTANT_Utf8
      else if t = 3 then Some CONSTANT_Integer
      else if t = 4 then Some CONSTANT_Float
      else if t = 5 then Some CONSTANT_other
      else if t = 6 then Some CONSTANT_other
      else if t = 7 then Some CONSTANT_Class
      else if t = 8 then Some CONSTANT_String
      else if t = 9 then Some CONSTANT_Fieldref
      else if t = 10 then Some CONSTANT_Methodref
      else if t = 11 then Some CONSTANT_other
      else if t = 12 then Some CONSTANT_NameAndType
      else if t = 15 then Some CONSTANT_MethodHandle
      else if t = 16 then Some CONSTANT_other
      else if t = 18 then Some CONSTANT_InvokeDynamic
      else None)"

definition jvm_consts :: jvmconsts where
  "jvm_consts = \<lparr>Constant = jvm_Constant,
     CLASS_ACCESS_FLAGS = [(''ACC_PUBLIC'', 0x0001), (''ACC_FINAL'', 0x0010), (''ACC_SUPER'', 0x0020)],
     METHOD_ACCESS_FLAGS = [(''ACC_PUBLIC'', 0x0001), (''ACC_STATIC'', 0x0008)]\<rparr>"

text \<open>A byte sequence written as the list of its byte values.\<close>

definition bytes_of :: "nat list \<Rightarrow> bytes" where
  "bytes_of ns = map char_of ns"

text \<open>A class whose pool is the Utf8 entry \<open>Main\<close> followed by a Class entry that names it.\<close>

definition example_class :: JVMClass where
  "example_class = \<lparr>version = (52, 0),
     constant_pool = [CONSTANT_Utf8_info ''Main'', CONSTANT_Class_info 1],
     methods = Some [], attributes = Some [],
     access_flags = [], this_class = 2, super_class = 0\<rparr>"

text \<open>
  The same class with a SourceFile attribute and two BootstrapMethods attributes, the
  first with two methods.
\<close>

definition bsm_class :: JVMClass where
  "bsm_class = example_class \<lparr>attributes := Some
     [Attribute 3 (Bytes ''SourceFile'') (SourceFile_attribute 4),
      Attribute 5 (Bytes ''BootstrapMethods'') (BootstrapMethods_attribute 2
        [\<lparr>bootstrap_method_ref = 6, num_bootstrap_arguments = 0, bootstrap_arguments = []\<rparr>,
         \<lparr>bootstrap_method_ref = 8, num_bootstrap_arguments = 0, bootstrap_arguments = []\<rparr>]),
      Attribute 5 (Bytes ''BootstrapMethods'') (BootstrapMethods_attribute 1
        [\<lparr>bootstrap_method_ref = 7, num_bootstrap_arguments = 0, bootstrap_arguments = []\<rparr>])]\<rparr>"

text \<open>
  A class file with two BootstrapMethods attributes, the first with no method and the
  second with one, and the class it decodes to.
\<close>

definition two_bsm_file :: bytes where
  "two_bsm_file =
     bytes_of [0xCA, 0xFE, 0xBA, 0xBE, 0, 0, 0, 52, 0, 2, 1, 0, 16] @ ''BootstrapMethods''
       @ bytes_of [0, 0x21, 0, 0, 0, 0, 0, 0, 0, 0, 0, 0, 0, 2,
                   0, 1, 0, 0, 0, 2, 0, 0,
                   0, 1, 0, 0, 0, 6, 0, 1, 0, 7, 0, 0]"

definition two_bsm_class :: JVMClass where
  "two_bsm_class = \<lparr>version = (52, 0),
     constant_pool = [CONSTANT_Utf8_info ''BootstrapMethods''],
     methods = Some [],
     attributes = Some
       [Attribute 1 (Bytes ''BootstrapMethods'') (BootstrapMethods_attribute 0 []),
        Attribute 1 (Bytes ''BootstrapMethods'') (BootstrapMethods_attribute 1
          [\<lparr>bootstrap_method_ref = 7, num_bootstrap_arguments = 0, bootstrap_arguments = []\<rparr>])],
     access_flags = [''ACC_PUBLIC'', ''ACC_SUPER''], this_class = 0, super_class = 0\<rparr>"

text \<open>
  A class file up to and including the declared length, 10, of the payload of its last
  attribute, a SourceFile attribute; and the class it decodes to when a payload that
  starts with the bytes 0, 1 follows.
\<close>

definition sourcefile_file_head :: bytes where
  "sourcefile_file_head =
     bytes_of [0xCA, 0xFE, 0xBA, 0xBE, 0, 0, 0, 52, 0, 2, 1, 0, 10] @ ''SourceFile''
       @ bytes_of [0, 0x21, 0, 0, 0, 0, 0, 0, 0, 0, 0, 0, 0, 1, 0, 1, 0, 0, 0, 10]"

definition sourcefile_decoded :: JVMClass where
  "sourcefile_decoded = \<lparr>version = (52, 0),
     constant_pool = [CONSTANT_Utf8_info ''SourceFile''],
     methods = Some [],
     attributes = Some [Attribute 1 (Bytes ''SourceFile'') (SourceFile_attribute 1)],
     access_flags = [''ACC_PUBLIC'', ''ACC_SUPER''], this_class = 0, super_class = 0\<rparr>"

text \<open>A class whose pool starts with the Utf8 entry \<open>SourceFile\<close>.\<close>

definition sourcefile_class :: JVMClass where
  "sourcefile_class = example_class
     \<lparr>constant_pool := [CONSTANT_Utf8_info ''SourceFile'', CONSTANT_Utf8_info ''Main.java'']\<rparr>"

section \<open>Properties\<close>

declare parse_attributes.simps [simp del] parse_attribute_info.simps [simp del]
  parse_attribute_info_Code.simps [simp del]

lemma and_then_Inl [simp]: "and_then (Inl e) k = Inl e"
  by (simp add: and_then_def)

lemma and_then_Inr [simp]: "and_then (Inr x) k = k x"
  by (simp add: and_then_def)

subsection \<open>Flag decoder\<close>

lemma parse_flags_filter:
  "parse_flags v flags = map fst (filter (\<lambda>(name, msk). v AND msk \<noteq> 0) flags)"
  by (induction flags) auto

lemma parse_flags_zero: "parse_flags 0 flags = []"
  by (induction flags) auto

lemma parse_flags_member:
  "name \<in> set (parse_flags v flags) \<longleftrightarrow> (\<exists>msk. (name, msk) \<in> set flags \<and> v AND msk \<noteq> 0)"
  by (induction flags) (auto split: if_splits)

lemma parse_flags_single_bits:
  "parse_flags v (map (\<lambda>(name, k). (name, 2 ^ k)) table)
     = map fst (filter (\<lambda>(name, k). bit v k) table)"
  by (induction table) (auto simp: and_exp_eq_0_iff_not_bit)

text \<open>
  C5: the flag decoder is a function of the value and the table alone; it returns the
  names of the table entries whose mask has a bit in common with the value, in the order
  of the table; for masks of a single bit, these are the names whose bit is set in the
  value. The value 0 gives the empty list, and against the table
  PUBLIC = 0x0001, FINAL = 0x0010 the value 0x0001 gives PUBLIC and 0x0011 gives
  PUBLIC, FINAL.
\<close>

theorem parse_flags_table_order:
  "parse_flags v flags = map fst (filter (\<lambda>(name, msk). v AND msk \<noteq> 0) flags)
   \<and> parse_flags v (map (\<lambda>(name, k). (name, 2 ^ k)) table)
       = map fst (filter (\<lambda>(name, k). bit v k) table)
   \<and> parse_flags 0 flags = []
   \<and> parse_flags 0x0001 [(''PUBLIC'', 0x0001), (''FINAL'', 0x0010)] = [''PUBLIC'']
   \<and> parse_flags 0x0011 [(''PUBLIC'', 0x0001), (''FINAL'', 0x0010)] = [''PUBLIC'', ''FINAL'']"
proof (intro conjI)
  show "parse_flags v flags = map fst (filter (\<lambda>(name, msk). v AND msk \<noteq> 0) flags)"
    by (rule parse_flags_filter)
  show "parse_flags v (map (\<lambda>(name, k). (name, 2 ^ k)) table)
          = map fst (filter (\<lambda>(name, k). bit v k) table)"
    by (rule parse_flags_single_bits)
  show "parse_flags 0 flags = []"
    by (rule parse_flags_zero)
qed simp_all

lemmas reader_defs =
  parse_i1_def parse_i2_def parse_i4_def parse_f4_def parse_fixed_def be_value_def read_def

lemma and_then_eq_Inr:
  "and_then m k = Inr y \<longleftrightarrow> (\<exists>x. m = Inr x \<and> k x = Inr y)"
  by (cases m) simp_all

subsection \<open>Loops\<close>

lemma for_range_Suc_Inr:
  "for_range body (Suc n) f = Inr (ys, f') \<longleftrightarrow>
   (\<exists>x f1 xs. body f = Inr (x, f1) \<and> for_range body n f1 = Inr (xs, f') \<and> ys = x # xs)"
  by (auto simp: and_then_eq_Inr)

lemma for_range_append:
  "for_range body k f = Inr (xs, f') \<Longrightarrow>
   for_range body (k + n) f = and_then (for_range body n f') (\<lambda>(ys, f''). Inr (xs @ ys, f''))"
proof (induction k arbitrary: f xs)
  case 0
  then show ?case by (cases "for_range body n f'") auto
next
  case (Suc k)
  from Suc.prems obtain x f1 xs' where
    b: "body f = Inr (x, f1)" and r: "for_range body k f1 = Inr (xs', f')" and xs: "xs = x # xs'"
    unfolding for_range_Suc_Inr by blast
  show ?case
    by (cases "for_range body n f'") (simp_all add: b Suc.IH [OF r] xs split: prod.splits)
qed

subsection \<open>Cross-reference resolver\<close>

text \<open>
  C9: \<open>from_cp\<close> is a 1-based lookup: for an index from 1 to the number of pool entries
  it returns the entry at that position of the pool (position \<open>i - 1\<close> of the list, which
  is in declaration order), and for index 0 and every negative index it fails with the
  assertion error, a \<open>BadIndex\<close>.
\<close>

theorem from_cp_one_based:
  "(1 \<le> i \<and> i \<le> int (length (constant_pool clazz)) \<longrightarrow>
      from_cp clazz i = Inr (constant_pool clazz ! nat (i - 1)))
   \<and> (i \<le> 0 \<longrightarrow> from_cp clazz i = Inl (BadIndex AssertionError))"
  by (simp add: from_cp_def list_index_def)

theorem from_cp_one_based_witness:
  "(1::int) \<le> 2 \<and> 2 \<le> int (length (constant_pool example_class))
   \<and> from_cp example_class 2 = Inr (CONSTANT_Class_info 1)
   \<and> from_cp example_class 1 = Inr (CONSTANT_Utf8_info ''Main'')
   \<and> from_cp example_class 0 = Inl (BadIndex AssertionError)
   \<and> from_cp example_class (-3) = Inl (BadIndex AssertionError)"
  using from_cp_one_based [of 2 example_class] from_cp_one_based [of 1 example_class]
    from_cp_one_based [of 0 example_class] from_cp_one_based [of "-3" example_class]
  by (simp add: example_class_def)

text \<open>
  C1 (the code departs from the claim): \<open>get_name_of_class\<close> has no check of its index,
  unlike \<open>from_cp\<close>, so the index 0 reaches \<^verbatim>\<open>constant_pool[-1]\<close>, the last entry of the
  pool. On the class whose pool is the Utf8 entry \<open>Main\<close> and a Class entry naming it,
  the index 0 returns the name \<open>Main\<close> instead of failing.
\<close>

theorem get_name_of_class_index_zero:
  "get_name_of_class example_class 0 = Inr ''Main''"
  by (simp add: get_name_of_class_def example_class_def list_index_def decode_utf8_def
      byte_in_def)

lemma from_bsm_loop_first:
  "\<forall>a \<in> set pre. get_name a \<noteq> Bytes ''BootstrapMethods'' \<Longrightarrow>
   from_bsm_loop (pre @ Attribute ni (Bytes ''BootstrapMethods'') payload # post) index =
     and_then (get_bootstrap_methods payload) (\<lambda>ms. list_index ms index)"
  by (induction pre) auto

text \<open>
  C10 as stated fails: a class that holds a BootstrapMethods attribute with a method
  need not answer the index 0. The class file with two BootstrapMethods attributes, the
  first empty and the second with one method, decodes, and on the decoded class the
  index 0 fails with \<^verbatim>\<open>IndexError\<close>: only the first attribute is looked at.
\<close>

theorem first_bootstrap_methods_empty:
  "parse_class_file jvm_consts two_bsm_file = Inr two_bsm_class
   \<and> from_bsm two_bsm_class 0 = Inl (BadIndex IndexError)"
  by (simp add: two_bsm_file_def two_bsm_class_def parse_class_file_def bytes_of_def reader_defs
      parse_constant_pool_def parse_cp_info_def jvm_consts_def jvm_Constant_def
      parse_interfaces_def parse_fields_def parse_attributes.simps from_cp_def list_index_def
      parse_attribute_info.simps AttributeInfoName_def parse_attribute_info_BootstrapMethods_def
      parse_bootstrap_method_def from_bsm_def)

text \<open>
  C10, amended: \<open>from_bsm\<close> indexes from 0 the method list of the first attribute named
  \<open>BootstrapMethods\<close> in declaration order, whatever follows that attribute (further
  BootstrapMethods attributes included). Every negative index is rejected by the
  assertion, in every class. When the method list of that first attribute is \<open>mms\<close>,
  every index \<open>k\<close> below the length of \<open>mms\<close> returns the method at position \<open>k\<close> of
  \<open>mms\<close>, so that the index 0 returns the first method of a list that is not empty, and
  every index from the length of \<open>mms\<close> on fails with \<^verbatim>\<open>IndexError\<close>.
\<close>

theorem from_bsm_zero_based:
  "(index < 0 \<longrightarrow> from_bsm clazz index = Inl (BadIndex AssertionError))
   \<and> (attributes clazz =
         Some (pre @ Attribute ni (Bytes ''BootstrapMethods'')
                       (BootstrapMethods_attribute n mms) # post)
       \<and> (\<forall>a \<in> set pre. get_name a \<noteq> Bytes ''BootstrapMethods'')
       \<longrightarrow> (k < length mms \<longrightarrow> from_bsm clazz (int k) = Inr (mms ! k))
         \<and> (length mms \<le> k \<longrightarrow> from_bsm clazz (int k) = Inl (BadIndex IndexError)))"
  by (auto simp: from_bsm_def from_bsm_loop_first list_index_def)

theorem from_bsm_zero_based_witness:
  "(-1::int) < 0 \<and> from_bsm bsm_class (-1) = Inl (BadIndex AssertionError)
   \<and> from_bsm bsm_class (int 0) =
       Inr \<lparr>bootstrap_method_ref = 6, num_bootstrap_arguments = 0, bootstrap_arguments = []\<rparr>
   \<and> from_bsm bsm_class (int 1) =
       Inr \<lparr>bootstrap_method_ref = 8, num_bootstrap_arguments = 0, bootstrap_arguments = []\<rparr>
   \<and> from_bsm bsm_class (int 2) = Inl (BadIndex IndexError)"
  using
    from_bsm_zero_based [of "-1" bsm_class
     "[Attribute 3 (Bytes ''SourceFile'') (SourceFile_attribute 4)]" 5 2
     "[\<lparr>bootstrap_method_ref = 6, num_bootstrap_arguments = 0, bootstrap_arguments = []\<rparr>,
       \<lparr>bootstrap_method_ref = 8, num_bootstrap_arguments = 0, bootstrap_arguments = []\<rparr>]"
     "[Attribute 5 (Bytes ''BootstrapMethods'') (BootstrapMethods_attribute 1
        [\<lparr>bootstrap_method_ref = 7, num_bootstrap_arguments = 0, bootstrap_arguments = []\<rparr>])]"
     0]
    from_bsm_zero_based [of "-1" bsm_class
     "[Attribute 3 (Bytes ''SourceFile'') (SourceFile_attribute 4)]" 5 2
     "[\<lparr>bootstrap_method_ref = 6, num_bootstrap_arguments = 0, bootstrap_arguments = []\<rparr>,
       \<lparr>bootstrap_method_ref = 8, num_bootstrap_arguments = 0, bootstrap_arguments = []\<rparr>]"
     "[Attribute 5 (Bytes ''BootstrapMethods'') (BootstrapMethods_attribute 1
        [\<lparr>bootstrap_method_ref = 7, num_bootstrap_arguments = 0, bootstrap_arguments = []\<rparr>])]"
     1]
    from_bsm_zero_based [of "-1" bsm_class
     "[Attribute 3 (Bytes ''SourceFile'') (SourceFile_attribute 4)]" 5 2
     "[\<lparr>bootstrap_method_ref = 6, num_bootstrap_arguments = 0, bootstrap_arguments = []\<rparr>,
       \<lparr>bootstrap_method_ref = 8, num_bootstrap_arguments = 0, bootstrap_arguments = []\<rparr>]"
     "[Attribute 5 (Bytes ''BootstrapMethods'') (BootstrapMethods_attribute 1
        [\<lparr>bootstrap_method_ref = 7, num_bootstrap_arguments = 0, bootstrap_arguments = []\<rparr>])]"
     2]
  by (simp add: bsm_class_def example_class_def)

subsection \<open>Constant pool decoder\<close>

lemma parse_i1_Cons: "parse_i1 (c # f) = Inr (of_char c, f)"
  by (simp add: parse_i1_def parse_fixed_def be_value_def)

lemma parse_cp_info_Cons:
  "parse_cp_info Const (c # f) =
     (case Const (of_char c) of
        None \<Rightarrow> Inl (UnsupportedConstantTag (of_char c))
      | Some CONSTANT_other \<Rightarrow> Inl (UnsupportedConstantTag (of_char c))
      | Some tag \<Rightarrow> parse_cp_info Const (c # f))"
  by (simp add: parse_cp_info_def parse_i1_Cons split: option.split constant_tag.split)

lemma parse_cp_info_unknown:
  assumes "Const t = None \<or> Const t = Some CONSTANT_other" and "t < 256"
  shows "parse_cp_info Const (char_of t # rest) = Inl (UnsupportedConstantTag t)"
  using assms by (subst parse_cp_info_Cons) auto

lemma parse_constant_pool_unknown:
  assumes "Const t = None \<or> Const t = Some CONSTANT_other" and "t < 256"
    and "for_range (parse_cp_info Const) k f = Inr (entries, char_of t # rest)"
    and "k < constant_pool_count - 1"
  shows "parse_constant_pool Const f constant_pool_count = Inl (UnsupportedConstantTag t)"
proof -
  define n where "n = constant_pool_count - 1 - Suc k"
  have n: "constant_pool_count - 1 = k + Suc n"
    using assms(4) by (simp add: n_def)
  have "for_range (parse_cp_info Const) (Suc n) (char_of t # rest) = Inl (UnsupportedConstantTag t)"
    using assms(1,2) by (simp add: parse_cp_info_unknown [where Const = Const and t = t])
  then show ?thesis
    unfolding parse_constant_pool_def n
    by (simp only: for_range_append [OF assms(3)] and_then_Inl)
qed

text \<open>
  C4: when the first \<open>k\<close> entries of the pool decode and the next entry, one of the
  \<open>constant_pool_count - 1\<close> entries of the pool, starts with a tag byte \<open>t\<close> that is not
  one of the ten supported tags (it is no member of the enum, or a member that the parser
  does not handle), the pool decoder fails with \<open>UnsupportedConstantTag t\<close>: it returns no
  pool. The decoding of a class file whose header was read up to the pool count fails
  with the same error.
\<close>

theorem unknown_tag_aborts:
  assumes "Constant K t = None \<or> Constant K t = Some CONSTANT_other" and "t < 256"
    and "for_range (parse_cp_info (Constant K)) k f = Inr (entries, char_of t # rest)"
    and "k < constant_pool_count - 1"
  shows "parse_constant_pool (Constant K) f constant_pool_count = Inl (UnsupportedConstantTag t)
    \<and> (parse_i4 g = Inr (0xCAFEBABE, g1) \<and> parse_i2 g1 = Inr (v_minor, g2)
         \<and> parse_i2 g2 = Inr (v_major, g3) \<and> parse_i2 g3 = Inr (constant_pool_count, f)
       \<longrightarrow> parse_class_file K g = Inl (UnsupportedConstantTag t))"
proof -
  have pool: "parse_constant_pool (Constant K) f constant_pool_count = Inl (UnsupportedConstantTag t)"
    using assms by (rule parse_constant_pool_unknown)
  show ?thesis
    by (simp add: pool parse_class_file_def)
qed

theorem unknown_tag_aborts_witness:
  "(Constant jvm_consts 2 = None \<or> Constant jvm_consts 2 = Some CONSTANT_other) \<and> (2::nat) < 256
   \<and> for_range (parse_cp_info (Constant jvm_consts)) 1 (bytes_of [1, 0, 1, 65, 2, 0])
       = Inr ([CONSTANT_Utf8_info (bytes_of [65])], char_of (2::nat) # bytes_of [0])
   \<and> (1::nat) < 3 - 1
   \<and> parse_constant_pool (Constant jvm_consts) (bytes_of [1, 0, 1, 65, 2, 0]) 3
       = Inl (UnsupportedConstantTag 2)
   \<and> parse_class_file jvm_consts
        (bytes_of [0xCA, 0xFE, 0xBA, 0xBE, 0, 0, 0, 52, 0, 3, 1, 0, 1, 65, 2, 0])
       = Inl (UnsupportedConstantTag 2)"
  using unknown_tag_aborts [of jvm_consts 2 1 "bytes_of [1, 0, 1, 65, 2, 0]"
      "[CONSTANT_Utf8_info (bytes_of [65])]" "bytes_of [0]" 3
      "bytes_of [0xCA, 0xFE, 0xBA, 0xBE, 0, 0, 0, 52, 0, 3, 1, 0, 1, 65, 2, 0]"
      "bytes_of [0, 0, 0, 52, 0, 3, 1, 0, 1, 65, 2, 0]" 0
      "bytes_of [0, 52, 0, 3, 1, 0, 1, 65, 2, 0]" 52
      "bytes_of [0, 3, 1, 0, 1, 65, 2, 0]"]
  by (simp add: jvm_consts_def jvm_Constant_def bytes_of_def reader_defs parse_cp_info_def)

lemma parse_fixed_append:
  "length a = w \<Longrightarrow> parse_fixed w (a @ r) = Inr (be_value a, r)"
  by (simp add: parse_fixed_def)

lemmas parse_append =
  parse_fixed_append [of _ 1, folded parse_i1_def]
  parse_fixed_append [of _ 2, folded parse_i2_def]
  parse_fixed_append [of _ 4, folded parse_i4_def]
  parse_fixed_append [of _ 4, folded parse_f4_def]

lemma be_value_u1: "n < 256 \<Longrightarrow> be_value (u1 n) = n"
  by (simp add: be_value_def u1_def)

lemma be_value_u2: "n < 65536 \<Longrightarrow> be_value (u2 n) = n"
proof -
  assume "n < 65536"
  then have "n div 256 < 256" by simp
  then show ?thesis by (simp add: be_value_def u2_def)
qed

lemma two_bytes: "(x::nat) div 256 mod 256 * 256 + x mod 256 = x mod 65536"
  using mod_mult2_eq [of x 256 256] by simp

lemma be_value_u4: "n < 4294967296 \<Longrightarrow> be_value (u4 n) = n"
proof -
  assume n: "n < 4294967296"
  define m where "m = n div 65536"
  have a: "n div 16777216 = m div 256"
    unfolding m_def by (simp add: div_mult2_eq)
  have "be_value (u4 n) =
      (m div 256 mod 256 * 256 + m mod 256) * 65536 + (n div 256 mod 256 * 256 + n mod 256)"
    unfolding be_value_def u4_def a m_def [symmetric] by (simp add: algebra_simps)
  also have "\<dots> = m mod 65536 * 65536 + n mod 65536"
    by (simp only: two_bytes)
  also have "\<dots> = n mod 4294967296"
    unfolding m_def using mod_mult2_eq [of n 65536 65536] by simp
  finally show ?thesis using n by simp
qed

lemma length_u [simp]: "length (u1 n) = 1" "length (u2 n) = 2" "length (u4 n) = 4"
  by (simp_all add: u1_def u2_def u4_def)

lemma parse_u1: "n < 256 \<Longrightarrow> parse_i1 (u1 n @ r) = Inr (n, r)"
  by (simp add: parse_append be_value_u1)

lemma parse_u2: "n < 65536 \<Longrightarrow> parse_i2 (u2 n @ r) = Inr (n, r)"
  by (simp add: parse_append be_value_u2)

lemma parse_u4: "n < 4294967296 \<Longrightarrow> parse_i4 (u4 n @ r) = Inr (n, r)"
  by (simp add: parse_append be_value_u4)

lemma parse_f4_u4: "n < 4294967296 \<Longrightarrow> parse_f4 (u4 n @ r) = Inr (n, r)"
  by (simp add: parse_append be_value_u4)

lemma parse_cp_info_encode:
  assumes "well_formed_entry Const (t, e)"
  shows "parse_cp_info Const (encode_cp_info (t, e) @ rest) = Inr (e, rest)"
proof -
  have t: "t < 256" "Const t = Some (tag_of e)" and fit: "fields_fit e"
    using assms by (simp_all add: well_formed_entry_def)
  have "parse_i1 (encode_cp_info (t, e) @ rest) = Inr (t, encode_fields e @ rest)"
    by (simp add: encode_cp_info_def parse_i1_Cons t)
  then show ?thesis
    using fit t(2)
    by (cases e) (simp_all add: parse_cp_info_def parse_u1 parse_u2 parse_u4 parse_f4_u4 read_def)
qed

lemma for_range_encode:
  "\<forall>te \<in> set tes. well_formed_entry Const te \<Longrightarrow>
   for_range (parse_cp_info Const) (length tes) (concat (map encode_cp_info tes) @ rest)
     = Inr (map snd tes, rest)"
proof (induction tes)
  case Nil
  show ?case by simp
next
  case (Cons te tes)
  obtain t e where te: "te = (t, e)" by (cases te)
  have "parse_cp_info Const (encode_cp_info (t, e) @ concat (map encode_cp_info tes) @ rest)
          = Inr (e, concat (map encode_cp_info tes) @ rest)"
    using Cons.prems by (intro parse_cp_info_encode) (simp add: te)
  then show ?case using Cons by (simp add: te)
qed

lemma for_range_length:
  "for_range body n f = Inr (xs, f') \<Longrightarrow> length xs = n"
proof (induction n arbitrary: f xs)
  case 0
  then show ?case by simp
next
  case (Suc n)
  then show ?case unfolding for_range_Suc_Inr by auto
qed

text \<open>
  C3: a pool count of \<open>K\<close>, here the successor of the number of entries, followed by the
  bytes of \<open>K - 1\<close> well-formed entries: the pool decoder returns exactly these \<open>K - 1\<close>
  entries, in the order of their bytes in the input, and stops right after them.
\<close>

theorem pool_count_entries:
  "(\<forall>te \<in> set tes. well_formed_entry Const te) \<and> constant_pool_count = Suc (length tes) \<longrightarrow>
     parse_constant_pool Const (concat (map encode_cp_info tes) @ rest) constant_pool_count
       = Inr (map snd tes, rest)
     \<and> length (map snd tes) = constant_pool_count - 1"
  by (simp add: parse_constant_pool_def for_range_encode)

theorem pool_count_entries_witness:
  "well_formed_entry jvm_Constant (1, CONSTANT_Utf8_info ''Main'')
   \<and> well_formed_entry jvm_Constant (7, CONSTANT_Class_info 1)
   \<and> (3::nat) = Suc (length [(1::nat, CONSTANT_Utf8_info ''Main''), (7, CONSTANT_Class_info 1)])
   \<and> parse_constant_pool jvm_Constant
        (concat (map encode_cp_info [(1, CONSTANT_Utf8_info ''Main''), (7, CONSTANT_Class_info 1)])
           @ bytes_of [0, 33]) 3
       = Inr ([CONSTANT_Utf8_info ''Main'', CONSTANT_Class_info 1], bytes_of [0, 33])"
  using pool_count_entries [of "[(1, CONSTANT_Utf8_info ''Main''), (7, CONSTANT_Class_info 1)]"
      jvm_Constant 3 "bytes_of [0, 33]"]
  by (simp add: well_formed_entry_def jvm_Constant_def)

subsection \<open>Code sub-parser\<close>

text \<open>
  C6: a Code payload laid out as max_stack, max_locals, the code length, that many bytes
  of code and the 16-bit exception-table count. When the count is not 0 the sub-parser
  fails with the unsupported-feature error of the exception tables, whatever follows.
  When the count is 0 no such error is raised: the sub-parser goes on to the nested
  attribute list, and returns the Code payload when that list decodes.
\<close>

theorem exception_table_unsupported:
  assumes "length ms = 2" and "length ml = 2" and "length cl = 4"
    and "length code = be_value cl" and "length et = 2"
  shows "(be_value et \<noteq> 0 \<longrightarrow>
            parse_attribute_info clazz (Bytes ''Code'') (ms @ ml @ cl @ code @ et @ rest)
              = Inl (UnsupportedFeature ''exception tables''))
       \<and> (be_value et = 0 \<and> parse_i2 rest = Inr (attributes_count, rest')
            \<and> parse_attributes clazz rest' attributes_count = Inr (attrs, rest'')
          \<longrightarrow> parse_attribute_info clazz (Bytes ''Code'') (ms @ ml @ cl @ code @ et @ rest)
              = Inr (Code_attribute (be_value ms) (be_value ml) code attrs))"
  using assms
  by (simp add: parse_attribute_info.simps AttributeInfoName_def parse_attribute_info_Code.simps
      parse_append read_def)

theorem exception_table_unsupported_witness:
  "length (bytes_of [0, 2]) = 2 \<and> length (bytes_of [0, 1]) = 2 \<and> length (bytes_of [0, 0, 0, 1]) = 4
   \<and> length (bytes_of [0xB1]) = be_value (bytes_of [0, 0, 0, 1]) \<and> length (bytes_of [0, 1]) = 2
   \<and> be_value (bytes_of [0, 1]) \<noteq> 0
   \<and> parse_attribute_info example_class (Bytes ''Code'')
        (bytes_of [0, 2] @ bytes_of [0, 1] @ bytes_of [0, 0, 0, 1] @ bytes_of [0xB1]
           @ bytes_of [0, 1] @ bytes_of [0, 0])
       = Inl (UnsupportedFeature ''exception tables'')
   \<and> be_value (bytes_of [0, 0]) = 0
   \<and> parse_attribute_info example_class (Bytes ''Code'')
        (bytes_of [0, 2] @ bytes_of [0, 1] @ bytes_of [0, 0, 0, 1] @ bytes_of [0xB1]
           @ bytes_of [0, 0] @ bytes_of [0, 0])
       = Inr (Code_attribute 2 1 (bytes_of [0xB1]) [])"
  using exception_table_unsupported [of "bytes_of [0, 2]" "bytes_of [0, 1]" "bytes_of [0, 0, 0, 1]"
      "bytes_of [0xB1]" "bytes_of [0, 1]" example_class "bytes_of [0, 0]" 0 "[]" "[]" "[]"]
    exception_table_unsupported [of "bytes_of [0, 2]" "bytes_of [0, 1]" "bytes_of [0, 0, 0, 1]"
      "bytes_of [0xB1]" "bytes_of [0, 0]" example_class "bytes_of [0, 0]" 0 "[]" "[]" "[]"]
  by (simp add: bytes_of_def be_value_def parse_i2_def parse_fixed_def parse_attributes.simps)

subsection \<open>Class assembler\<close>

lemma parse_interfaces_nonzero:
  "interfaces_count \<noteq> 0 \<Longrightarrow>
   parse_interfaces f interfaces_count = Inl (UnsupportedFeature ''interfaces'')"
  by (simp add: parse_interfaces_def)

text \<open>
  C7 (the code departs from the claim): a non-zero interfaces count fails with
  \<open>UnsupportedFeature ''interfaces''\<close> whatever follows, but \<open>parse_fields\<close> raises the
  exception of \<open>parse_interfaces\<close>, with the same message. A class file with no pool
  entries, an interfaces count of 0 and a fields count of 1 fails with the error that
  names the interfaces, not the fields.
\<close>

theorem fields_count_reports_interfaces:
  "parse_class_file jvm_consts (bytes_of
     [0xCA, 0xFE, 0xBA, 0xBE, 0, 0, 0, 52, 0, 1, 0, 0x21, 0, 0, 0, 0, 0, 0, 0, 1])
   = Inl (UnsupportedFeature ''interfaces'')"
  by (simp add: parse_class_file_def bytes_of_def reader_defs parse_constant_pool_def
      parse_interfaces_def parse_fields_def)

subsection \<open>Truncated streams\<close>

lemma in_step_imp_strong: "in_step ext s l \<Longrightarrow> strong_step ext s l"
  by (auto simp: in_step_def strong_step_def split: sum.splits)

lemma strong_imp_weak: "strong_step ext s l \<Longrightarrow> weak_step ext s l"
  by (auto simp: weak_step_def strong_step_def split: sum.splits)

lemma in_step_return: "in_step ext (Inr (x, r)) (Inr (x, r @ ext))"
  by (simp add: in_step_def)

lemma in_step_fixed: "in_step ext (parse_fixed w f) (parse_fixed w (f @ ext))"
  by (simp add: in_step_def parse_fixed_def)

lemmas in_step_parse =
  in_step_fixed [of _ 1, folded parse_i1_def]
  in_step_fixed [of _ 2, folded parse_i2_def]
  in_step_fixed [of _ 4, folded parse_i4_def]
  in_step_fixed [of _ 4, folded parse_f4_def]

lemma in_step_bind:
  assumes "in_step ext s l"
    and "\<And>v r. s = Inr (v, r) \<Longrightarrow> in_step ext (k v r) (k v (r @ ext))"
  shows "in_step ext (and_then s (\<lambda>(v, r). k v r)) (and_then l (\<lambda>(v, r). k v r))"
  using assms by (cases s) (auto simp: in_step_def split: sum.splits prod.splits)

lemma same_bind:
  assumes "in_step ext s l"
    and "\<And>v r. s = Inr (v, r) \<Longrightarrow> same_or_truncated (k v r) (k v (r @ ext))"
  shows "same_or_truncated (and_then s (\<lambda>(v, r). k v r)) (and_then l (\<lambda>(v, r). k v r))"
  using assms by (cases s) (auto simp: in_step_def same_or_truncated_def split: sum.splits prod.splits)

lemma weak_bind:
  assumes "in_step ext s l"
    and "\<And>v r. s = Inr (v, r) \<Longrightarrow> weak_step ext (k v r) (k v (r @ ext))"
  shows "weak_step ext (and_then s (\<lambda>(v, r). k v r)) (and_then l (\<lambda>(v, r). k v r))"
  using assms by (cases s) (auto simp: in_step_def weak_step_def split: sum.splits prod.splits)

lemma in_step_for_range:
  assumes "\<And>f ext. in_step ext (body f) (body (f @ ext))"
  shows "in_step ext (for_range body n f) (for_range body n (f @ ext))"
proof (induction n arbitrary: f)
  case 0
  show ?case by (simp add: in_step_return)
next
  case (Suc n)
  show ?case
    unfolding for_range.simps
    by (intro in_step_bind assms Suc.IH in_step_return)
qed

lemma in_step_bootstrap_method:
  "in_step ext (parse_bootstrap_method f) (parse_bootstrap_method (f @ ext))"
  unfolding parse_bootstrap_method_def
  by (intro in_step_bind in_step_parse in_step_for_range in_step_return)

lemma in_step_inner_class:
  "in_step ext (parse_inner_class f) (parse_inner_class (f @ ext))"
  unfolding parse_inner_class_def
  by (intro in_step_bind in_step_parse in_step_return)

lemma in_step_line_number_entry:
  "in_step ext (parse_line_number_entry f) (parse_line_number_entry (f @ ext))"
  unfolding parse_line_number_entry_def
  by (intro in_step_bind in_step_parse in_step_return)

lemma same_refl: "same_or_truncated s s"
  by (simp add: same_or_truncated_def)

lemma same_BootstrapMethods:
  "same_or_truncated (parse_attribute_info_BootstrapMethods clazz f)
     (parse_attribute_info_BootstrapMethods clazz (f @ ext))"
  unfolding parse_attribute_info_BootstrapMethods_def
  by (intro same_bind [where ext = ext] in_step_parse in_step_for_range in_step_bootstrap_method same_refl)

lemma same_SourceFile:
  "same_or_truncated (parse_attribute_info_SourceFile clazz f)
     (parse_attribute_info_SourceFile clazz (f @ ext))"
  unfolding parse_attribute_info_SourceFile_def
  by (intro same_bind [where ext = ext] in_step_parse same_refl)

lemma same_InnerClasses:
  "same_or_truncated (parse_attribute_info_InnerClasses clazz f)
     (parse_attribute_info_InnerClasses clazz (f @ ext))"
  unfolding parse_attribute_info_InnerClasses_def
  by (intro same_bind [where ext = ext] in_step_parse in_step_for_range in_step_inner_class same_refl)

lemma same_LineNumberTable:
  "same_or_truncated (parse_attribute_info_LineNumberTable clazz f)
     (parse_attribute_info_LineNumberTable clazz (f @ ext))"
  unfolding parse_attribute_info_LineNumberTable_def
  by (intro same_bind [where ext = ext] in_step_parse in_step_for_range in_step_line_number_entry same_refl)

lemma strong_bind:
  assumes "in_step ext s l"
    and "\<And>v r. s = Inr (v, r) \<Longrightarrow> strong_step ext (k v r) (k v (r @ ext))"
  shows "strong_step ext (and_then s (\<lambda>(v, r). k v r)) (and_then l (\<lambda>(v, r). k v r))"
  using assms by (cases s) (auto simp: in_step_def strong_step_def split: sum.splits prod.splits)

lemma strong_bind_pure:
  assumes "\<And>x. m = Inr x \<Longrightarrow> strong_step ext (k x) (k' x)"
  shows "strong_step ext (and_then m k) (and_then m k')"
  using assms by (cases m) (auto simp: strong_step_def)

lemma strong_cons:
  assumes "strong_step ext b b'"
  shows "strong_step ext (and_then b (\<lambda>(xs, f). Inr (x # xs, f)))
           (and_then b' (\<lambda>(xs, f). Inr (x # xs, f)))"
  using assms by (cases b) (auto simp: strong_step_def split: sum.splits prod.splits)

lemma same_bind_strong:
  assumes "strong_step ext s l"
  shows "same_or_truncated (and_then s (\<lambda>(v, r). Inr (g v))) (and_then l (\<lambda>(v, r). Inr (g v)))"
  using assms by (cases s) (auto simp: strong_step_def same_or_truncated_def split: sum.splits prod.splits)

lemma parse_i2_Nil: "parse_i2 [] = Inl TruncatedInput"
  by (simp add: parse_i2_def parse_fixed_def)

lemma parse_attributes_Nil:
  "parse_attributes clazz [] count = (if count = 0 then Inr ([], []) else Inl TruncatedInput)"
  by (subst parse_attributes.simps) (simp add: parse_i2_Nil)

lemma parse_attributes_zero: "parse_attributes clazz f 0 = Inr ([], f)"
  by (subst parse_attributes.simps) simp

lemma strong_after_short_read:
  assumes "same_or_truncated a a'"
  shows "strong_step ext
     (and_then a (\<lambda>info. and_then (parse_attributes clazz [] m) (\<lambda>(xs, f). Inr (g info # xs, f))))
     (and_then a' (\<lambda>info. and_then (parse_attributes clazz e m) (\<lambda>(xs, f). Inr (g info # xs, f))))"
proof (cases "m = 0")
  case True
  then show ?thesis using assms
    by (cases a) (auto simp: parse_attributes_zero same_or_truncated_def strong_step_def)
next
  case False
  then show ?thesis using assms
    by (cases a) (auto simp: parse_attributes_Nil same_or_truncated_def strong_step_def)
qed

lemma read_append:
  "n \<le> length f \<Longrightarrow> read (f @ ext) n = (take n f, drop n f @ ext)"
  "\<not> n \<le> length f \<Longrightarrow> read f n = (f, [])"
  "\<not> n \<le> length f \<Longrightarrow> read (f @ ext) n = (f @ take (n - length f) ext, drop (n - length f) ext)"
  by (simp_all add: read_def)

lemma truncation_stable:
  "\<forall>ext. strong_step ext (parse_attributes clazz f count) (parse_attributes clazz (f @ ext) count)"
  "\<forall>ext. same_or_truncated (parse_attribute_info clazz name g) (parse_attribute_info clazz name (g @ ext))"
  "\<forall>ext. same_or_truncated (parse_attribute_info_Code clazz h) (parse_attribute_info_Code clazz (h @ ext))"
proof (induction clazz f count and clazz name g and clazz h
    rule: parse_attributes_parse_attribute_info_parse_attribute_info_Code.induct)
  case (1 clazz f count)
  show ?case
  proof (rule allI, cases "count = 0")
    fix ext
    case True
    then show "strong_step ext (parse_attributes clazz f count) (parse_attributes clazz (f @ ext) count)"
      by (simp add: parse_attributes_zero strong_step_def)
  next
    fix ext
    case False
    have unfold: "\<And>f. parse_attributes clazz f count =
        and_then (parse_i2 f) (\<lambda>(name_index, f).
        and_then (and_then (from_cp clazz (int name_index)) get_bytes) (\<lambda>name.
        and_then (parse_i4 f) (\<lambda>(attribute_length, f).
        case read f attribute_length of (info_bytes, f) \<Rightarrow>
        and_then (parse_attribute_info clazz name info_bytes) (\<lambda>info.
        and_then (parse_attributes clazz f (count - 1)) (\<lambda>(attrs, f).
        Inr (Attribute name_index name info # attrs, f))))))"
      using False by (subst parse_attributes.simps) simp
    show "strong_step ext (parse_attributes clazz f count) (parse_attributes clazz (f @ ext) count)"
      unfolding unfold
      apply (intro strong_bind [where ext = ext] strong_bind_pure in_step_parse)
      subgoal premises p for name_index r1 name len r2
      proof (cases "len \<le> length r2")
        case True
        have rd: "(take len r2, drop len r2) = read r2 len" by (simp add: read_def)
        show ?thesis
          unfolding read_append(1) [OF True] rd [symmetric] prod.case
          apply (intro strong_bind_pure strong_cons)
          subgoal premises q for info
            using "1.IH"(2) [OF False p(1) refl p(2) p(3) refl rd q] by blast
          done
      next
        case False
        have rd: "(r2, []) = read r2 len" using False by (simp add: read_def)
        show ?thesis
          unfolding read_append(2,3) [OF False] prod.case
          apply (rule strong_after_short_read)
          using "1.IH"(1) [OF \<open>count \<noteq> 0\<close> p(1) refl p(2) p(3) refl rd] by blast
      qed
      done
  qed
next
  case (2 clazz attr_name f)
  show ?case
  proof (rule allI)
    fix ext
    show "same_or_truncated (parse_attribute_info clazz attr_name f)
            (parse_attribute_info clazz attr_name (f @ ext))"
    proof (cases "AttributeInfoName attr_name")
      case None
      then show ?thesis by (simp add: parse_attribute_info.simps same_refl)
    next
      case (Some x)
      then show ?thesis
        using "2.IH" [OF Some]
        by (cases x)
          (simp_all add: parse_attribute_info.simps same_BootstrapMethods same_SourceFile
            same_InnerClasses same_LineNumberTable)
    qed
  qed
next
  case (3 clazz f)
  show ?case
  proof (rule allI)
    fix ext
    show "same_or_truncated (parse_attribute_info_Code clazz f)
            (parse_attribute_info_Code clazz (f @ ext))"
      unfolding parse_attribute_info_Code.simps
      apply (intro same_bind [where ext = ext] in_step_parse)
      subgoal premises p for max_stack r1 max_locals r2 code_length r3
      proof (cases "code_length \<le> length r3")
        case True
        have rd: "(take code_length r3, drop code_length r3) = read r3 code_length"
          by (simp add: read_def)
        show ?thesis
          unfolding read_append(1) [OF True] rd [symmetric] prod.case
          apply (intro same_bind [where ext = ext] in_step_parse)
          subgoal premises q for exception_table_length r4
          proof (cases "exception_table_length \<noteq> 0")
            case True
            then show ?thesis by (simp add: same_refl)
          next
            case False
            show ?thesis
              unfolding if_not_P [OF False]
              apply (intro same_bind_strong [where ext = ext] same_bind [where ext = ext]
                  in_step_parse)
              subgoal premises s for attributes_count r5
                using "3.IH" [OF p(1) refl p(2) refl p(3) refl rd q(1) refl False s(1) refl]
                by blast
              done
          qed
          done
      next
        case False
        show ?thesis
          unfolding read_append(2) [OF False] prod.case
          by (simp add: parse_i2_Nil same_or_truncated_def)
      qed
      done
  qed
qed

lemma weak_bind_weak:
  assumes "weak_step ext s l"
    and "\<And>v r. s = Inr (v, r) \<Longrightarrow> l = Inr (v, r @ ext) \<Longrightarrow> weak_step ext (k v r) (k v (r @ ext))"
    and "\<And>v. s = Inr (v, []) \<Longrightarrow> k v [] = Inl TruncatedInput \<or> (\<exists>x. k v [] = Inr (x, []))"
  shows "weak_step ext (and_then s (\<lambda>(v, r). k v r)) (and_then l (\<lambda>(v, r). k v r))"
proof (cases s)
  case (Inl e)
  then show ?thesis using assms(1) by (auto simp: weak_step_def)
next
  case (Inr vr)
  obtain v r where vr: "vr = (v, r)" by (cases vr)
  show ?thesis
  proof (cases "l = Inr (v, r @ ext)")
    case True
    then show ?thesis using assms(2) [of v r] Inr vr by simp
  next
    case False
    then have "r = []" using assms(1) Inr vr by (simp add: weak_step_def)
    then show ?thesis using assms(3) [of v] Inr vr by (auto simp: weak_step_def)
  qed
qed

lemma weak_bind_strong_last:
  assumes "strong_step ext s l"
  shows "weak_step ext (and_then s (\<lambda>(v, r). Inr (g v, r))) (and_then l (\<lambda>(v, r). Inr (g v, r)))"
  using assms by (cases s) (auto simp: strong_step_def weak_step_def split: sum.splits prod.splits)

lemma same_bind_weak:
  assumes "weak_step ext s l"
    and "\<And>v r. s = Inr (v, r) \<Longrightarrow> same_or_truncated (k v r) (k v (r @ ext))"
    and "\<And>v. k v [] = Inl TruncatedInput"
  shows "same_or_truncated (and_then s (\<lambda>(v, r). k v r)) (and_then l (\<lambda>(v, r). k v r))"
proof (cases s)
  case (Inl e)
  then show ?thesis using assms(1) by (auto simp: weak_step_def same_or_truncated_def)
next
  case (Inr vr)
  obtain v r where vr: "vr = (v, r)" by (cases vr)
  show ?thesis
  proof (cases "l = Inr (v, r @ ext)")
    case True
    then show ?thesis using assms(2) [of v r] Inr vr by simp
  next
    case False
    then have "r = []" using assms(1) Inr vr by (simp add: weak_step_def)
    then show ?thesis using assms(3) [of v] Inr vr by (simp add: same_or_truncated_def)
  qed
qed

lemma same_if:
  assumes "c \<Longrightarrow> same_or_truncated a a'" and "\<not> c \<Longrightarrow> same_or_truncated b b'"
  shows "same_or_truncated (if c then a else b) (if c then a' else b')"
  using assms by simp

lemma parse_i1_Nil: "parse_i1 [] = Inl TruncatedInput"
  by (simp add: parse_i1_def parse_fixed_def)

lemma for_range_Nil:
  assumes "body [] = Inl TruncatedInput"
  shows "for_range body n [] = (if n = 0 then Inr ([], []) else Inl TruncatedInput)"
  using assms by (cases n) simp_all

lemma weak_for_range:
  assumes "\<And>f ext. weak_step ext (body f) (body (f @ ext))" and "body [] = Inl TruncatedInput"
  shows "weak_step ext (for_range body n f) (for_range body n (f @ ext))"
proof (induction n arbitrary: f)
  case 0
  show ?case by (simp add: weak_step_def)
next
  case (Suc n)
  show ?case
    unfolding for_range.simps
    apply (rule weak_bind_weak [where ext = ext])
      apply (rule assms(1))
    subgoal for v r
      apply (rule weak_bind_weak [where ext = ext])
        apply (rule Suc.IH)
       apply (simp add: weak_step_def)
      apply simp
      done
    subgoal for v
      by (simp add: for_range_Nil [where body = body, OF assms(2)])
    done
qed

lemma weak_cp_info:
  "weak_step ext (parse_cp_info Const f) (parse_cp_info Const (f @ ext))"
proof (cases f)
  case Nil
  then show ?thesis by (simp add: parse_cp_info_def parse_i1_Nil weak_step_def)
next
  case (Cons c r)
  note start = Cons append_Cons parse_cp_info_def parse_i1_Cons and_then_Inr prod.case
  show ?thesis
  proof (cases "Const (of_char c)")
    case None
    then show ?thesis unfolding start by (simp add: weak_step_def)
  next
    case (Some constant_tag)
    show ?thesis
    proof (cases constant_tag)
      case CONSTANT_Utf8
      show ?thesis
        unfolding start Some option.case CONSTANT_Utf8 constant_tag.case
        apply (intro weak_bind [where ext = ext] in_step_parse)
        subgoal for len r'
          by (cases "len \<le> length r'") (simp_all add: read_append read_def weak_step_def)
        done
    next
      case CONSTANT_other
      show ?thesis
        unfolding start Some option.case CONSTANT_other constant_tag.case
        by (simp add: weak_step_def)
    qed (unfold start Some option.case, simp_all only: constant_tag.case,
        (rule strong_imp_weak, rule in_step_imp_strong,
          intro in_step_bind in_step_parse in_step_return)+)
  qed
qed

lemma weak_constant_pool:
  "weak_step ext (parse_constant_pool Const f n) (parse_constant_pool Const (f @ ext) n)"
  unfolding parse_constant_pool_def
  by (rule weak_for_range [OF weak_cp_info]) (simp add: parse_cp_info_def parse_i1_Nil)

lemma weak_method:
  "weak_step ext (parse_method K clazz f) (parse_method K clazz (f @ ext))"
  unfolding parse_method_def
  by (intro weak_bind_strong_last [where ext = ext] weak_bind [where ext = ext] in_step_parse
      truncation_stable(1) [rule_format])

lemma weak_methods:
  "weak_step ext (for_range (parse_method K clazz) n f) (for_range (parse_method K clazz) n (f @ ext))"
  by (rule weak_for_range [OF weak_method]) (simp add: parse_method_def parse_i2_Nil)

lemma in_step_interfaces:
  "in_step ext (parse_interfaces f n) (parse_interfaces (f @ ext) n)"
  "in_step ext (parse_fields f n) (parse_fields (f @ ext) n)"
  by (simp_all add: parse_interfaces_def parse_fields_def in_step_def)

lemmas same_bind_fixed =
  same_bind [OF in_step_parse(1)] same_bind [OF in_step_parse(2)] same_bind [OF in_step_parse(3)]
  same_bind [OF in_step_interfaces(1)] same_bind [OF in_step_interfaces(2)]

lemma class_file_stable:
  "same_or_truncated (parse_class_file K f) (parse_class_file K (f @ ext))"
  unfolding parse_class_file_def Let_def
  apply (intro same_bind_fixed same_if same_refl)
  apply (rule same_bind_weak [where ext = ext])
    apply (rule weak_constant_pool)
   apply (intro same_bind_fixed same_if same_refl)
   apply (rule same_bind_weak [where ext = ext])
     apply (rule weak_methods)
    apply (intro same_bind_fixed same_bind_strong [where ext = ext] truncation_stable(1) [rule_format])
   apply (simp add: parse_i2_Nil)
  apply (simp add: parse_i2_Nil)
  done

subsection \<open>Attribute envelope\<close>

text \<open>
  C8: an attribute whose name index resolves in the pool, with a declared length equal
  to the length of the payload that follows, and any bytes \<open>rest\<close> after the payload.
  The sub-parser runs on the payload alone, as a stream of its own, so nothing of \<open>rest\<close>
  can reach it; and whatever it consumed, the list goes on at \<open>rest\<close>, exactly the
  declared length past the start of the payload. A sub-parser that succeeds on the
  first bytes \<open>p\<close> of a payload succeeds with the same result when further bytes follow
  \<open>p\<close> in the payload: they are left unread, and no error is raised for them.
  In general, for any bytes \<open>tail\<close> after the declared length, the sub-parser gets the
  first \<open>declared\<close> bytes of \<open>tail\<close> (all of \<open>tail\<close> when it is shorter) and the list goes
  on after them.
\<close>

theorem attribute_payload_cursor:
  assumes "name_index < 65536" and "length payload < 4294967296" and "declared < 4294967296"
    and "and_then (from_cp clazz (int name_index)) get_bytes = Inr name"
  shows "parse_attributes clazz (u2 name_index @ u4 (length payload) @ payload @ rest) (Suc n) =
           and_then (parse_attribute_info clazz name payload) (\<lambda>info.
           and_then (parse_attributes clazz rest n) (\<lambda>(attrs, f).
           Inr (Attribute name_index name info # attrs, f)))
       \<and> parse_attributes clazz (u2 name_index @ u4 declared @ tail) (Suc n) =
           and_then (parse_attribute_info clazz name (take declared tail)) (\<lambda>info.
           and_then (parse_attributes clazz (drop declared tail) n) (\<lambda>(attrs, f).
           Inr (Attribute name_index name info # attrs, f)))
       \<and> (parse_attribute_info clazz name p = Inr info \<longrightarrow>
            parse_attribute_info clazz name (p @ unread) = Inr info)"
proof (intro conjI)
  show "parse_attributes clazz (u2 name_index @ u4 (length payload) @ payload @ rest) (Suc n) =
           and_then (parse_attribute_info clazz name payload) (\<lambda>info.
           and_then (parse_attributes clazz rest n) (\<lambda>(attrs, f).
           Inr (Attribute name_index name info # attrs, f)))"
    using assms by (subst parse_attributes.simps) (simp add: parse_u2 parse_u4 read_def)
  show "parse_attributes clazz (u2 name_index @ u4 declared @ tail) (Suc n) =
           and_then (parse_attribute_info clazz name (take declared tail)) (\<lambda>info.
           and_then (parse_attributes clazz (drop declared tail) n) (\<lambda>(attrs, f).
           Inr (Attribute name_index name info # attrs, f)))"
    using assms by (subst parse_attributes.simps) (simp add: parse_u2 parse_u4 read_def)
  show "parse_attribute_info clazz name p = Inr info \<longrightarrow>
          parse_attribute_info clazz name (p @ unread) = Inr info"
    using truncation_stable(2) [of clazz name p, rule_format, of unread]
    by (auto simp: same_or_truncated_def)
qed

theorem attribute_payload_cursor_witness:
  "(1::nat) < 65536 \<and> length (bytes_of [0, 2, 9, 9]) < 4294967296 \<and> (10::nat) < 4294967296
   \<and> and_then (from_cp sourcefile_class (int 1)) get_bytes = Inr (Bytes ''SourceFile'')
   \<and> parse_attributes sourcefile_class
        (u2 1 @ u4 (length (bytes_of [0, 2, 9, 9])) @ bytes_of [0, 2, 9, 9] @ bytes_of [7]) (Suc 0)
       = Inr ([Attribute 1 (Bytes ''SourceFile'') (SourceFile_attribute 2)], bytes_of [7])
   \<and> parse_attributes sourcefile_class (u2 1 @ u4 10 @ bytes_of [0, 2]) (Suc 0)
       = Inr ([Attribute 1 (Bytes ''SourceFile'') (SourceFile_attribute 2)], [])
   \<and> parse_attribute_info sourcefile_class (Bytes ''SourceFile'') (bytes_of [0, 2])
       = Inr (SourceFile_attribute 2)
   \<and> parse_attribute_info sourcefile_class (Bytes ''SourceFile'') (bytes_of [0, 2] @ bytes_of [9, 9])
       = Inr (SourceFile_attribute 2)"
  using attribute_payload_cursor [of 1 "bytes_of [0, 2, 9, 9]" 10 sourcefile_class
      "Bytes ''SourceFile''" "bytes_of [7]" 0 "bytes_of [0, 2]" "bytes_of [0, 2]"
      "SourceFile_attribute 2" "bytes_of [9, 9]"]
  by (simp add: sourcefile_class_def example_class_def from_cp_def list_index_def bytes_of_def
      parse_attribute_info.simps AttributeInfoName_def parse_attribute_info_SourceFile_def
      parse_i2_def parse_fixed_def be_value_def parse_attributes_zero)

subsection \<open>Truncated class files\<close>

text \<open>
  C2 as stated fails: a class file that ends inside the payload of its last attribute
  (10 bytes declared, 2 present) decodes successfully, because \<^verbatim>\<open>f.read\<close> returns the
  bytes that remain and the SourceFile sub-parser needs only 2.
\<close>

theorem truncated_payload_decodes:
  "parse_class_file jvm_consts
     (bytes_of [0xCA, 0xFE, 0xBA, 0xBE, 0, 0, 0, 52, 0, 2, 1, 0, 10] @ ''SourceFile''
        @ bytes_of [0, 0x21, 0, 0, 0, 0, 0, 0, 0, 0, 0, 0, 0, 1, 0, 1, 0, 0, 0, 10, 0, 1])
   = Inr \<lparr>version = (52, 0), constant_pool = [CONSTANT_Utf8_info ''SourceFile''],
          methods = Some [],
          attributes = Some [Attribute 1 (Bytes ''SourceFile'') (SourceFile_attribute 1)],
          access_flags = [''ACC_PUBLIC'', ''ACC_SUPER''], this_class = 0, super_class = 0\<rparr>"
  by (simp add: parse_class_file_def bytes_of_def reader_defs parse_constant_pool_def
      parse_cp_info_def jvm_consts_def jvm_Constant_def parse_interfaces_def parse_fields_def
      parse_attributes.simps from_cp_def list_index_def parse_attribute_info.simps
      AttributeInfoName_def parse_attribute_info_SourceFile_def)

text \<open>
  C2, amended: decoding a stream \<open>f\<close> either fails with \<open>TruncatedInput\<close> or gives
  exactly the result, class or error, of decoding \<open>f\<close> followed by any further bytes
  \<open>ext\<close>; so a stream that was cut short never decodes to a class different from that
  of the whole stream. A fixed-width read with too few bytes left (no byte for an 8-bit
  field, one byte for a 16-bit field, three bytes for a 32-bit field) fails with
  \<open>TruncatedInput\<close>. A raw byte sequence with fewer bytes left than declared is read
  short with no error of its own: the class file whose last attribute, a SourceFile
  attribute, declares 10 payload bytes decodes to the same class with all 10 bytes
  present and with only the first 2 present, and fails with \<open>TruncatedInput\<close> with only
  the first byte present.
\<close>

theorem decode_truncation:
  "(parse_class_file K f = Inl TruncatedInput \<or> parse_class_file K f = parse_class_file K (f @ ext))
   \<and> parse_i1 [] = Inl TruncatedInput
   \<and> parse_i2 (take 1 f) = Inl TruncatedInput
   \<and> parse_i4 (take 3 f) = Inl TruncatedInput
   \<and> parse_class_file jvm_consts (sourcefile_file_head @ bytes_of [0, 1, 2, 3, 4, 5, 6, 7, 8, 9])
       = Inr sourcefile_decoded
   \<and> parse_class_file jvm_consts (sourcefile_file_head @ bytes_of [0, 1]) = Inr sourcefile_decoded
   \<and> parse_class_file jvm_consts (sourcefile_file_head @ bytes_of [0]) = Inl TruncatedInput"
proof (intro conjI)
  show "parse_class_file K f = Inl TruncatedInput
      \<or> parse_class_file K f = parse_class_file K (f @ ext)"
    using class_file_stable [of K f ext] by (simp add: same_or_truncated_def)
  show "parse_i1 [] = Inl TruncatedInput"
    by (simp add: parse_i1_def parse_fixed_def)
  show "parse_i2 (take 1 f) = Inl TruncatedInput"
    by (auto simp: parse_i2_def parse_fixed_def)
  show "parse_i4 (take 3 f) = Inl TruncatedInput"
    by (auto simp: parse_i4_def parse_fixed_def)
  note decode = sourcefile_file_head_def sourcefile_decoded_def parse_class_file_def bytes_of_def
    reader_defs parse_constant_pool_def parse_cp_info_def jvm_consts_def jvm_Constant_def
    parse_interfaces_def parse_fields_def parse_attributes.simps from_cp_def list_index_def
    parse_attribute_info.simps AttributeInfoName_def parse_attribute_info_SourceFile_def
  show "parse_class_file jvm_consts
          (sourcefile_file_head @ bytes_of [0, 1, 2, 3, 4, 5, 6, 7, 8, 9]) = Inr sourcefile_decoded"
    by (simp add: decode)
  show "parse_class_file jvm_consts (sourcefile_file_head @ bytes_of [0, 1]) = Inr sourcefile_decoded"
    by (simp add: decode)
  show "parse_class_file jvm_consts (sourcefile_file_head @ bytes_of [0]) = Inl TruncatedInput"
    by (simp add: decode)
qed

end
